theory Spec2Isabelle
  imports Main
begin

section \<open>Go strings and the functions of package \<open>strings\<close> the program calls\<close>

text \<open>
  A Go string is a sequence of bytes, here a \<open>char list\<close>; \<open>len\<close> is \<open>length\<close>.
  \<open>Split\<close>, \<open>SplitN\<close>, \<open>HasSuffix\<close> and \<open>Contains\<close> compare bytes. \<open>ToLower\<close> and
  \<open>TrimSpace\<close> read the string as UTF-8 and consult the Unicode tables of the Go
  library, which are not part of this repository. On a string of ASCII bytes their
  result is fixed by the bytes and is written out below. On a string with a byte
  from \<open>0x80\<close> on, the result is a parameter of the model: the library \<open>L\<close>.
\<close>

definition isASCII :: "string \<Rightarrow> bool" where
  "isASCII s = list_all (\<lambda>c. (of_char c :: nat) < 128) s"

record golib =
  mapToLower :: "string \<Rightarrow> string"
  trimFuncIsSpace :: "string \<Rightarrow> string"

text \<open>
  \<open>mapToLower L s\<close> stands for \<open>strings.Map(unicode.ToLower, s)\<close> and
  \<open>trimFuncIsSpace L s\<close> for \<open>strings.TrimFunc(s, unicode.IsSpace)\<close>.

  \<open>strings.ToLower\<close>: on ASCII, \<open>'A'\<close> to \<open>'Z'\<close> are moved by \<open>'a' - 'A'\<close>.
\<close>

definition lower_byte :: "char \<Rightarrow> char" where
  "lower_byte c =
     (let n = (of_char c :: nat) in if 65 \<le> n \<and> n \<le> 90 then char_of (n + 32) else c)"

definition ToLower :: "golib \<Rightarrow> string \<Rightarrow> string" where
  "ToLower L s = (if isASCII s then map lower_byte s else mapToLower L s)"

definition HasPrefix :: "string \<Rightarrow> string \<Rightarrow> bool" where
  "HasPrefix s p = (length p \<le> length s \<and> take (length p) s = p)"

definition HasSuffix :: "string \<Rightarrow> string \<Rightarrow> bool" where
  "HasSuffix s suf = (length suf \<le> length s \<and> drop (length s - length suf) s = suf)"

fun Contains :: "string \<Rightarrow> string \<Rightarrow> bool" where
  "Contains [] sub = (sub = [])"
| "Contains (c # cs) sub = (HasPrefix (c # cs) sub \<or> Contains cs sub)"

text \<open>
  \<open>strings.TrimSpace\<close>: the white space among the ASCII bytes is tab, line feed,
  vertical tab, form feed, carriage return and space (the library's table
  \<open>asciiSpace\<close>); on ASCII the leading and the trailing ones are cut.
\<close>

definition asciiSpace :: "char \<Rightarrow> bool" where
  "asciiSpace c = (c = CHR 0x09 \<or> c = CHR 0x0A \<or> c = CHR 0x0B \<or> c = CHR 0x0C
                   \<or> c = CHR 0x0D \<or> c = CHR '' '')"

definition trimASCII :: "string \<Rightarrow> string" where
  "trimASCII s = rev (dropWhile asciiSpace (rev (dropWhile asciiSpace s)))"

definition TrimSpace :: "golib \<Rightarrow> string \<Rightarrow> string" where
  "TrimSpace L s = (if isASCII s then trimASCII s else trimFuncIsSpace L s)"

text \<open>\<open>strings.Split(s, sep)\<close> for a one-byte separator; \<open>Split "" sep\<close> is \<open>[""]\<close>.\<close>

fun Split :: "string \<Rightarrow> char \<Rightarrow> string list" where
  "Split [] sep = [[]]"
| "Split (c # cs) sep =
     (if c = sep then [] # Split cs sep
      else (let r = Split cs sep in (c # hd r) # tl r))"

text \<open>\<open>strings.SplitN(s, sep, 2)\<close> for a one-byte separator: at most two parts, cut at
  the first separator.\<close>

definition SplitN2 :: "string \<Rightarrow> char \<Rightarrow> string list" where
  "SplitN2 s sep =
     (if sep \<in> set s then [takeWhile (\<lambda>c. c \<noteq> sep) s, tl (dropWhile (\<lambda>c. c \<noteq> sep) s)]
      else [s])"

text \<open>
  The loop that both \<open>getRecentBranches\<close> and \<open>applyFilter\<close> run:
  \<^verbatim>\<open>for _, b := range xs { if keep(b) { filtered = append(filtered, b) } }\<close>
  with \<open>acc\<close> the slice \<open>filtered\<close> so far.
\<close>

fun appendIf :: "('a \<Rightarrow> bool) \<Rightarrow> 'a list \<Rightarrow> 'a list \<Rightarrow> 'a list" where
  "appendIf keep [] acc = acc"
| "appendIf keep (b # bs) acc = appendIf keep bs (if keep b then acc @ [b] else acc)"

section \<open>The collaborators: running \<open>git\<close>\<close>

datatype error = Error string

text \<open>\<open>cmd.Output()\<close> of a command line: its standard output, or an error.\<close>

type_synonym output_env = "string list \<Rightarrow> error + string"

text \<open>\<open>cmd.Run()\<close> of a command line: \<open>None\<close> is Go's \<open>nil\<close> error.\<close>

type_synonym run_env = "string list \<Rightarrow> error option"

section \<open>The selector with filtering and scope\<close>

record model =
  branches :: "string list"
  allBranches :: "string list"
  cursor :: int
  offset :: int
  remote :: bool
  selected :: bool
  err :: "error option"
  filterMode :: bool
  filterText :: string
  filteredApplied :: bool

text \<open>
  \<open>getRecentBranches\<close>: the command line it builds, and what it makes of the
  command's output (the loop over the lines keeps its entries in order).
\<close>

definition forEachRefArgs :: "bool \<Rightarrow> string list" where
  "forEachRefArgs r =
     (if r then [''git'', ''for-each-ref'', ''--sort=-committerdate'', ''refs/remotes/'',
                 ''--format=%(refname:short)'']
      else [''git'', ''for-each-ref'', ''--sort=-committerdate'', ''refs/heads/'',
            ''--format=%(refname:short)''])"

definition parseBranches :: "golib \<Rightarrow> string \<Rightarrow> string list" where
  "parseBranches L out =
     appendIf (\<lambda>b. b \<noteq> [] \<and> \<not> HasSuffix b ''/HEAD'') (Split (TrimSpace L out) CHR 0x0A) []"

definition getRecentBranches :: "golib \<Rightarrow> output_env \<Rightarrow> bool \<Rightarrow> error + string list" where
  "getRecentBranches L env r =
     (case env (forEachRefArgs r) of
        Inl e \<Rightarrow> Inl e
      | Inr out \<Rightarrow> Inr (parseBranches L out))"

definition initialModel :: "golib \<Rightarrow> output_env \<Rightarrow> bool \<Rightarrow> model" where
  "initialModel L env r =
     (let bs = (case getRecentBranches L env r of Inl e \<Rightarrow> [] | Inr l \<Rightarrow> l);
          e = (case getRecentBranches L env r of Inl e \<Rightarrow> Some e | Inr l \<Rightarrow> None)
      in \<lparr> branches = bs, allBranches = bs, cursor = 0, offset = 0, remote = r,
           selected = False, err = e, filterMode = False, filterText = [],
           filteredApplied = False \<rparr>)"

definition applyFilter :: "golib \<Rightarrow> model \<Rightarrow> model" where
  "applyFilter L m =
     (if filterText m = [] then m\<lparr>branches := allBranches m, cursor := 0, offset := 0\<rparr>
      else m\<lparr>branches :=
                 appendIf (\<lambda>branch. Contains (ToLower L branch) (ToLower L (filterText m)))
                   (allBranches m) [],
               cursor := 0, offset := 0\<rparr>)"

datatype msg = KeyMsg string | OtherMsg

datatype cmd = Quit

text \<open>The bodies of the cases \<open>"up", "k"\<close> and \<open>"down", "j"\<close> of \<open>Update\<close>.\<close>

definition moveUp :: "model \<Rightarrow> model" where
  "moveUp m =
     (if cursor m > 0 then
        (let m1 = m\<lparr>cursor := cursor m - 1\<rparr>
         in if cursor m1 < offset m1 then m1\<lparr>offset := offset m1 - 1\<rparr> else m1)
      else m)"

definition moveDown :: "model \<Rightarrow> model" where
  "moveDown m =
     (if cursor m < int (length (branches m)) - 1 then
        (let m1 = m\<lparr>cursor := cursor m + 1\<rparr>
         in if cursor m1 \<ge> offset m1 + 10 then m1\<lparr>offset := offset m1 + 1\<rparr> else m1)
      else m)"

definition Update :: "golib \<Rightarrow> model \<Rightarrow> msg \<Rightarrow> model \<times> cmd option" where
  "Update L m x =
     (case x of
        OtherMsg \<Rightarrow> (m, None)
      | KeyMsg k \<Rightarrow>
          if filterMode m then
            (if k = ''esc'' then
               (m\<lparr>filterMode := False, filterText := [], branches := allBranches m,
                  cursor := 0, offset := 0, filteredApplied := False\<rparr>, None)
             else if k = ''enter'' then
               (m\<lparr>filterMode := False, filteredApplied := True\<rparr>, None)
             else if k = ''backspace'' then
               (if length (filterText m) > 0
                then (applyFilter L (m\<lparr>filterText := butlast (filterText m)\<rparr>), None)
                else (m, None))
             else if length k = 1 then
               (applyFilter L (m\<lparr>filterText := filterText m @ k\<rparr>), None)
             else (m, None))
          else
            (if k = ''ctrl+c'' \<or> k = ''q'' then (m, Some Quit)
             else if k = ''esc'' then
               (if filteredApplied m then
                  (m\<lparr>branches := allBranches m, filterText := [], cursor := 0,
                     offset := 0, filteredApplied := False\<rparr>, None)
                else (m, Some Quit))
             else if k = ''/'' then (m\<lparr>filterMode := True, filterText := []\<rparr>, None)
             else if k = ''up'' \<or> k = ''k'' then (moveUp m, None)
             else if k = ''down'' \<or> k = ''j'' then (moveDown m, None)
             else if k = ''enter'' then (m\<lparr>selected := True\<rparr>, Some Quit)
             else (m, None)))"

text \<open>
  The event loop of \<open>p.Run()\<close>: messages are handed to \<open>Update\<close> one at a time until
  it returns the quit command; the model returned with it is the final model.
  \<open>None\<close>: the messages ran out first and the program is still waiting for a key.
\<close>

fun run :: "golib \<Rightarrow> model \<Rightarrow> msg list \<Rightarrow> model option" where
  "run L m [] = None"
| "run L m (x # xs) =
     (case Update L m x of
        (m', Some Quit) \<Rightarrow> Some m'
      | (m', None) \<Rightarrow> run L m' xs)"

text \<open>The model after a sequence of messages, whatever commands were returned on the
  way: every state of a session is of this form.\<close>

definition exec :: "golib \<Rightarrow> model \<Rightarrow> msg list \<Rightarrow> model" where
  "exec L m xs = foldl (\<lambda>s x. fst (Update L s x)) m xs"

text \<open>The command line \<open>checkoutBranch\<close> builds.\<close>

definition checkoutArgs :: "string \<Rightarrow> bool \<Rightarrow> string list" where
  "checkoutArgs branch r =
     (if r then
        (let parts = SplitN2 branch CHR ''/''
         in if length parts = 2 then [''git'', ''checkout'', parts ! 1]
            else [''git'', ''checkout'', ''--track'', branch])
      else [''git'', ''checkout'', branch])"

definition checkoutBranch :: "run_env \<Rightarrow> string \<Rightarrow> bool \<Rightarrow> error option" where
  "checkoutBranch git branch r = git (checkoutArgs branch r)"

text \<open>Indexing a slice panics out of range.\<close>

definition index :: "'a list \<Rightarrow> int \<Rightarrow> 'a option" where
  "index xs i = (if 0 \<le> i \<and> i < int (length xs) then Some (xs ! nat i) else None)"

text \<open>How the process ends: its exit code and the checkout command lines it ran, or a
  run-time panic.\<close>

datatype outcome = Exit int "string list list" | Panic

text \<open>\<open>main\<close> after \<open>p.Run()\<close> has returned the final model.\<close>

definition finish :: "run_env \<Rightarrow> model \<Rightarrow> outcome" where
  "finish git fm =
     (if err fm \<noteq> None then Exit 1 []
      else if selected fm \<and> length (branches fm) > 0 then
        (case index (branches fm) (cursor fm) of
           None \<Rightarrow> Panic
         | Some selectedBranch \<Rightarrow>
             (if checkoutBranch git selectedBranch (remote fm) \<noteq> None
              then Exit 1 [checkoutArgs selectedBranch (remote fm)]
              else Exit 0 [checkoutArgs selectedBranch (remote fm)]))
      else Exit 0 [])"

text \<open>
  \<open>main\<close>: \<open>r\<close> is the scope flag, \<open>tui\<close> the error of \<open>p.Run()\<close> itself (the terminal
  could not be driven), \<open>xs\<close> the messages the event loop receives. \<open>None\<close>: the
  process has not ended. Go's \<open>int\<close> has 64 bits; the cursor and the offset stay
  within the length of a slice, so they are modelled as unbounded integers.
\<close>

definition main :: "golib \<Rightarrow> output_env \<Rightarrow> run_env \<Rightarrow> bool \<Rightarrow> error option \<Rightarrow> msg list \<Rightarrow> outcome option" where
  "main L env git r tui xs =
     (if tui \<noteq> None then Some (Exit 1 [])
      else (case run L (initialModel L env r) xs of
              None \<Rightarrow> None
            | Some fm \<Rightarrow> Some (finish git fm)))"

section \<open>The selector without filtering\<close>

text \<open>
  The variant in \<open>main.go\<close> has the scope flag and no filter. Its
  \<open>getRecentBranches\<close> and \<open>checkoutBranch\<close> are those above, word for word.
\<close>

record model0 =
  branches0 :: "string list"
  cursor0 :: int
  offset0 :: int
  remote0 :: bool
  err0 :: "error option"

definition initialModel0 :: "golib \<Rightarrow> output_env \<Rightarrow> bool \<Rightarrow> model0" where
  "initialModel0 L env r =
     (let bs = (case getRecentBranches L env r of Inl e \<Rightarrow> [] | Inr l \<Rightarrow> l);
          e = (case getRecentBranches L env r of Inl e \<Rightarrow> Some e | Inr l \<Rightarrow> None)
      in \<lparr> branches0 = bs, cursor0 = 0, offset0 = 0, remote0 = r, err0 = e \<rparr>)"

text \<open>The bodies of the cases \<open>"up", "k"\<close> and \<open>"down", "j"\<close> of its \<open>Update\<close>.\<close>

definition moveUp0 :: "model0 \<Rightarrow> model0" where
  "moveUp0 m =
     (if cursor0 m > 0 then
        (let m1 = m\<lparr>cursor0 := cursor0 m - 1\<rparr>
         in if cursor0 m1 < offset0 m1 then m1\<lparr>offset0 := offset0 m1 - 1\<rparr> else m1)
      else m)"

definition moveDown0 :: "model0 \<Rightarrow> model0" where
  "moveDown0 m =
     (if cursor0 m < int (length (branches0 m)) - 1 then
        (let m1 = m\<lparr>cursor0 := cursor0 m + 1\<rparr>
         in if cursor0 m1 \<ge> offset0 m1 + 10 then m1\<lparr>offset0 := offset0 m1 + 1\<rparr> else m1)
      else m)"

definition Update0 :: "model0 \<Rightarrow> msg \<Rightarrow> model0 \<times> cmd option" where
  "Update0 m x =
     (case x of
        OtherMsg \<Rightarrow> (m, None)
      | KeyMsg k \<Rightarrow>
          if k = ''ctrl+c'' \<or> k = ''q'' then (m, Some Quit)
          else if k = ''up'' \<or> k = ''k'' then (moveUp0 m, None)
          else if k = ''down'' \<or> k = ''j'' then (moveDown0 m, None)
          else if k = ''enter'' then (m, Some Quit)
          else (m, None))"

fun run0 :: "model0 \<Rightarrow> msg list \<Rightarrow> model0 option" where
  "run0 m [] = None"
| "run0 m (x # xs) =
     (case Update0 m x of
        (m', Some Quit) \<Rightarrow> Some m'
      | (m', None) \<Rightarrow> run0 m' xs)"

definition exec0 :: "model0 \<Rightarrow> msg list \<Rightarrow> model0" where
  "exec0 m xs = foldl (\<lambda>s x. fst (Update0 s x)) m xs"

definition finish0 :: "run_env \<Rightarrow> model0 \<Rightarrow> outcome" where
  "finish0 git fm =
     (if err0 fm \<noteq> None then Exit 1 []
      else if length (branches0 fm) > 0 then
        (case index (branches0 fm) (cursor0 fm) of
           None \<Rightarrow> Panic
         | Some selectedBranch \<Rightarrow>
             (if checkoutBranch git selectedBranch (remote0 fm) \<noteq> None
              then Exit 1 [checkoutArgs selectedBranch (remote0 fm)]
              else Exit 0 [checkoutArgs selectedBranch (remote0 fm)]))
      else Exit 0 [])"

definition main0 :: "golib \<Rightarrow> output_env \<Rightarrow> run_env \<Rightarrow> bool \<Rightarrow> error option \<Rightarrow> msg list \<Rightarrow> outcome option" where
  "main0 L env git r tui xs =
     (if tui \<noteq> None then Some (Exit 1 [])
      else (case run0 (initialModel0 L env r) xs of
              None \<Rightarrow> None
            | Some fm \<Rightarrow> Some (finish0 git fm)))"

section \<open>The first variant: local branches only\<close>

text \<open>The variant without the scope flag keeps every non-empty line.\<close>

definition parseBranches1 :: "golib \<Rightarrow> string \<Rightarrow> string list" where
  "parseBranches1 L out = appendIf (\<lambda>b. b \<noteq> []) (Split (TrimSpace L out) CHR 0x0A) []"

definition getRecentBranches1 :: "golib \<Rightarrow> output_env \<Rightarrow> error + string list" where
  "getRecentBranches1 L env =
     (case env [''git'', ''for-each-ref'', ''--sort=-committerdate'', ''refs/heads/'',
                ''--format=%(refname:short)''] of
        Inl e \<Rightarrow> Inl e
      | Inr out \<Rightarrow> Inr (parseBranches1 L out))"

section \<open>Properties named by the specification\<close>

text \<open>The invariant of the view state: the window holds the cursor, and the cursor
  is an index of the visible list when there is one.\<close>

definition view_inv :: "model \<Rightarrow> bool" where
  "view_inv m =
     (0 \<le> offset m \<and> offset m \<le> cursor m \<and> cursor m < offset m + 10
      \<and> (branches m \<noteq> [] \<longrightarrow> cursor m < int (length (branches m))))"

definition view_inv0 :: "model0 \<Rightarrow> bool" where
  "view_inv0 m =
     (0 \<le> offset0 m \<and> offset0 m \<le> cursor0 m \<and> cursor0 m < offset0 m + 10
      \<and> (branches0 m \<noteq> [] \<longrightarrow> cursor0 m < int (length (branches0 m))))"




text \<open>Lines joined by a separator: what \<open>Split\<close> is to undo.\<close>

fun Join :: "string list \<Rightarrow> char \<Rightarrow> string" where
  "Join [] sep = []"
| "Join [l] sep = l"
| "Join (l # l' # ls) sep = l @ sep # Join (l' # ls) sep"

section \<open>The loops are filters\<close>

lemma appendIf_acc: "appendIf keep xs acc = acc @ filter keep xs"
  by (induction xs arbitrary: acc) simp_all

lemma appendIf_filter: "appendIf keep xs [] = filter keep xs"
  by (simp add: appendIf_acc)

section \<open>The event loop\<close>

lemma exec_Nil: "exec L m [] = m"
  by (simp add: exec_def)

lemma exec_Cons: "exec L m (x # xs) = exec L (fst (Update L m x)) xs"
  by (simp add: exec_def)

lemma exec_snoc: "exec L m (xs @ [x]) = fst (Update L (exec L m xs) x)"
  by (simp add: exec_def)

text \<open>A final model is the model after the messages up to the one that quit.\<close>

lemma run_is_exec: "run L m xs = Some fm \<Longrightarrow> \<exists>ys. fm = exec L m ys"
proof (induction xs arbitrary: m)
  case Nil
  then show ?case by simp
next
  case (Cons x xs)
  obtain m' c where u: "Update L m x = (m', c)" by (cases "Update L m x")
  show ?case
  proof (cases c)
    case None
    with Cons.prems u have "run L m' xs = Some fm" by simp
    then obtain ys where "fm = exec L m' ys" using Cons.IH by blast
    with u have "fm = exec L m (x # ys)" by (simp add: exec_Cons)
    then show ?thesis by blast
  next
    case (Some q)
    with Cons.prems u have "fm = m'" by (cases q) simp
    with u have "fm = exec L m [x]" by (simp add: exec_Cons exec_Nil)
    then show ?thesis by blast
  qed
qed

section \<open>The window and the cursor\<close>

lemma view_inv_initialModel: "view_inv (initialModel L env r)"
  by (simp add: view_inv_def initialModel_def Let_def)

lemma view_inv_applyFilter: "view_inv (applyFilter L m)"
  by (simp add: view_inv_def applyFilter_def)

lemma view_inv_moveUp: "view_inv m \<Longrightarrow> view_inv (moveUp m)"
  by (auto simp: view_inv_def moveUp_def Let_def)

lemma view_inv_moveDown: "view_inv m \<Longrightarrow> view_inv (moveDown m)"
  by (auto simp: view_inv_def moveDown_def Let_def)

lemma view_inv_Update: "view_inv m \<Longrightarrow> view_inv (fst (Update L m x))"
proof (cases x)
  case OtherMsg
  assume "view_inv m"
  with OtherMsg show ?thesis by (simp add: Update_def)
next
  case (KeyMsg k)
  assume inv: "view_inv m"
  have flags: "\<And>m f. view_inv (m\<lparr>filterMode := f\<rparr>) = view_inv m"
    "\<And>m f. view_inv (m\<lparr>filteredApplied := f\<rparr>) = view_inv m"
    "\<And>m f. view_inv (m\<lparr>filterText := f\<rparr>) = view_inv m"
    "\<And>m f. view_inv (m\<lparr>selected := f\<rparr>) = view_inv m"
    by (simp_all add: view_inv_def)
  show ?thesis
    using inv KeyMsg
    by (simp add: Update_def flags view_inv_applyFilter view_inv_moveUp view_inv_moveDown)
      (simp add: view_inv_def)
qed

lemma view_inv_exec: "view_inv m \<Longrightarrow> view_inv (exec L m xs)"
  by (induction xs arbitrary: m) (simp_all add: exec_Nil exec_Cons view_inv_Update)

lemma view_inv_reachable: "view_inv (exec L (initialModel L env r) xs)"
  by (rule view_inv_exec [OF view_inv_initialModel])

text \<open>
  Claim C3. In every state the selector reaches from its initial state, by any
  sequence of messages, the window starts at a non-negative index and holds the
  cursor: \<open>0 \<le> offset\<close> and \<open>offset \<le> cursor < offset + 10\<close>, whenever the visible
  list is non-empty.
\<close>

theorem window_holds_cursor:
  assumes "branches (exec L (initialModel L env r) xs) \<noteq> []"
  shows "0 \<le> offset (exec L (initialModel L env r) xs)
         \<and> offset (exec L (initialModel L env r) xs) \<le> cursor (exec L (initialModel L env r) xs)
         \<and> cursor (exec L (initialModel L env r) xs) < offset (exec L (initialModel L env r) xs) + 10"
  using view_inv_reachable [of L env r xs] by (simp add: view_inv_def)

theorem window_holds_cursor_witness:
  "branches (exec \<lparr>mapToLower = id, trimFuncIsSpace = id\<rparr> (initialModel \<lparr>mapToLower = id, trimFuncIsSpace = id\<rparr> (\<lambda>_. Inr ''main\<newline>dev'') False) [KeyMsg ''j'']) \<noteq> []
   \<and> offset (exec \<lparr>mapToLower = id, trimFuncIsSpace = id\<rparr> (initialModel \<lparr>mapToLower = id, trimFuncIsSpace = id\<rparr> (\<lambda>_. Inr ''main\<newline>dev'') False) [KeyMsg ''j''])
       \<le> cursor (exec \<lparr>mapToLower = id, trimFuncIsSpace = id\<rparr> (initialModel \<lparr>mapToLower = id, trimFuncIsSpace = id\<rparr> (\<lambda>_. Inr ''main\<newline>dev'') False) [KeyMsg ''j''])"
proof -
  have h: "branches (exec \<lparr>mapToLower = id, trimFuncIsSpace = id\<rparr> (initialModel \<lparr>mapToLower = id, trimFuncIsSpace = id\<rparr> (\<lambda>_. Inr ''main\<newline>dev'') False) [KeyMsg ''j'']) \<noteq> []"
    by code_simp
  from window_holds_cursor [OF h] h show ?thesis by simp
qed

text \<open>
  Claim C10. When the event loop ends with a non-empty list in the final model, the
  cursor is an index of that list, so \<open>finalModel.branches[finalModel.cursor]\<close> is
  in bounds and \<open>main\<close> does not panic.
\<close>

theorem final_cursor_in_bounds:
  assumes "run L (initialModel L env r) xs = Some fm" and "branches fm \<noteq> []"
  shows "0 \<le> cursor fm \<and> cursor fm < int (length (branches fm))
         \<and> index (branches fm) (cursor fm) = Some (branches fm ! nat (cursor fm))
         \<and> finish git fm \<noteq> Panic"
proof -
  from assms(1) obtain ys where "fm = exec L (initialModel L env r) ys"
    using run_is_exec by blast
  then have "view_inv fm" by (simp add: view_inv_reachable)
  with assms(2) have b: "0 \<le> cursor fm" "cursor fm < int (length (branches fm))"
    by (simp_all add: view_inv_def)
  then have i: "index (branches fm) (cursor fm) = Some (branches fm ! nat (cursor fm))"
    by (simp add: index_def)
  then have "finish git fm \<noteq> Panic" by (simp add: finish_def)
  with b i show ?thesis by simp
qed

theorem final_cursor_in_bounds_witness:
  "run \<lparr>mapToLower = id, trimFuncIsSpace = id\<rparr> (initialModel \<lparr>mapToLower = id, trimFuncIsSpace = id\<rparr> (\<lambda>_. Inr ''main\<newline>dev'') False) [KeyMsg ''j'', KeyMsg ''enter'']
     = Some ((initialModel \<lparr>mapToLower = id, trimFuncIsSpace = id\<rparr> (\<lambda>_. Inr ''main\<newline>dev'') False)\<lparr>cursor := 1, selected := True\<rparr>)
   \<and> cursor ((initialModel \<lparr>mapToLower = id, trimFuncIsSpace = id\<rparr> (\<lambda>_. Inr ''main\<newline>dev'') False)\<lparr>cursor := 1, selected := True\<rparr>)
       < int (length (branches ((initialModel \<lparr>mapToLower = id, trimFuncIsSpace = id\<rparr> (\<lambda>_. Inr ''main\<newline>dev'') False)\<lparr>cursor := 1, selected := True\<rparr>)))"
proof -
  have h1: "run \<lparr>mapToLower = id, trimFuncIsSpace = id\<rparr> (initialModel \<lparr>mapToLower = id, trimFuncIsSpace = id\<rparr> (\<lambda>_. Inr ''main\<newline>dev'') False) [KeyMsg ''j'', KeyMsg ''enter'']
     = Some ((initialModel \<lparr>mapToLower = id, trimFuncIsSpace = id\<rparr> (\<lambda>_. Inr ''main\<newline>dev'') False)\<lparr>cursor := 1, selected := True\<rparr>)"
    by code_simp
  have h2: "branches ((initialModel \<lparr>mapToLower = id, trimFuncIsSpace = id\<rparr> (\<lambda>_. Inr ''main\<newline>dev'') False)\<lparr>cursor := 1, selected := True\<rparr>) \<noteq> []"
    by code_simp
  from final_cursor_in_bounds [OF h1 h2] h1 show ?thesis by simp
qed

section \<open>Fields the transitions keep\<close>

lemma allBranches_applyFilter: "allBranches (applyFilter L m) = allBranches m"
  by (simp add: applyFilter_def)

lemma allBranches_Update: "allBranches (fst (Update L m x)) = allBranches m"
  by (cases x) (simp_all add: Update_def allBranches_applyFilter moveUp_def moveDown_def Let_def)

lemma allBranches_exec: "allBranches (exec L m xs) = allBranches m"
  by (induction xs arbitrary: m) (simp_all add: exec_Nil exec_Cons allBranches_Update)

lemma filterMode_applyFilter: "filterMode (applyFilter L m) = filterMode m"
  by (simp add: applyFilter_def)

lemma filterText_applyFilter: "filterText (applyFilter L m) = filterText m"
  by (simp add: applyFilter_def)

lemma err_applyFilter: "err (applyFilter L m) = err m"
  by (simp add: applyFilter_def)

lemma err_Update: "err (fst (Update L m x)) = err m"
  by (cases x) (simp_all add: Update_def err_applyFilter moveUp_def moveDown_def Let_def)

lemma err_exec: "err (exec L m xs) = err m"
  by (induction xs arbitrary: m) (simp_all add: exec_Nil exec_Cons err_Update)

lemma selected_applyFilter: "selected (applyFilter L m) = selected m"
  by (simp add: applyFilter_def)

text \<open>Only the step that quits can set the \<open>selected\<close> flag.\<close>

lemma selected_Update: "snd (Update L m x) = None \<Longrightarrow> selected (fst (Update L m x)) = selected m"
  by (cases x)
    (auto simp: Update_def selected_applyFilter moveUp_def moveDown_def Let_def split: if_splits)

lemma run_None_append: "run L m pre = None \<Longrightarrow> run L m (pre @ ys) = run L (exec L m pre) ys"
proof (induction pre arbitrary: m)
  case Nil
  show ?case by (simp add: exec_Nil)
next
  case (Cons x pre)
  obtain m' c where u: "Update L m x = (m', c)" by (cases "Update L m x")
  with Cons.prems have c: "c = None" by (cases c) (auto split: cmd.splits)
  with u Cons.prems have "run L m' pre = None" by simp
  then have "run L m' (pre @ ys) = run L (exec L m' pre) ys" by (rule Cons.IH)
  with u c show ?case by (simp add: exec_Cons)
qed

lemma run_None_selected: "run L m pre = None \<Longrightarrow> selected (exec L m pre) = selected m"
proof (induction pre arbitrary: m)
  case Nil
  show ?case by (simp add: exec_Nil)
next
  case (Cons x pre)
  obtain m' c where u: "Update L m x = (m', c)" by (cases "Update L m x")
  with Cons.prems have c: "c = None" by (cases c) (auto split: cmd.splits)
  with u Cons.prems have "run L m' pre = None" by simp
  then have "selected (exec L m' pre) = selected m'" by (rule Cons.IH)
  moreover from u c have "selected m' = selected m" using selected_Update [of L m x] by simp
  ultimately show ?case using u by (simp add: exec_Cons)
qed

section \<open>Filtering mode\<close>

text \<open>
  Claim C9. In filtering mode no message makes \<open>Update\<close> return the quit command:
  the key \<open>q\<close> is appended to the filter text, \<open>ctrl+c\<close> changes nothing, and the
  mode is left exactly by \<open>esc\<close> and \<open>enter\<close>, which return to browsing with no
  command.
\<close>

theorem filtering_never_quits:
  assumes "filterMode m"
  shows "snd (Update L m x) = None
         \<and> run L m [x] = None
         \<and> Update L m (KeyMsg ''q'') = (applyFilter L (m\<lparr>filterText := filterText m @ ''q''\<rparr>), None)
         \<and> filterText (fst (Update L m (KeyMsg ''q''))) = filterText m @ ''q''
         \<and> Update L m (KeyMsg ''ctrl+c'') = (m, None)
         \<and> (filterMode (fst (Update L m (KeyMsg k))) = (k \<noteq> ''esc'' \<and> k \<noteq> ''enter''))"
proof -
  have a: "snd (Update L m x) = None"
    using assms by (cases x) (simp_all add: Update_def)
  have b: "Update L m (KeyMsg ''q'') = (applyFilter L (m\<lparr>filterText := filterText m @ ''q''\<rparr>), None)"
    using assms by (simp add: Update_def)
  have c: "filterText (fst (Update L m (KeyMsg ''q''))) = filterText m @ ''q''"
    by (simp add: b filterText_applyFilter)
  have d: "Update L m (KeyMsg ''ctrl+c'') = (m, None)"
    using assms by (simp add: Update_def)
  have e: "filterMode (fst (Update L m (KeyMsg k))) = (k \<noteq> ''esc'' \<and> k \<noteq> ''enter'')"
    using assms by (simp add: Update_def filterMode_applyFilter)
  have f: "run L m [x] = None"
    using a by (cases "Update L m x") simp
  from a b c d e f show ?thesis by simp
qed

theorem filtering_never_quits_witness:
  "filterMode (exec \<lparr>mapToLower = id, trimFuncIsSpace = id\<rparr> (initialModel \<lparr>mapToLower = id, trimFuncIsSpace = id\<rparr> (\<lambda>_. Inr ''main\<newline>dev\<newline>docs'') False) [KeyMsg ''/''])
   \<and> snd (Update \<lparr>mapToLower = id, trimFuncIsSpace = id\<rparr> (exec \<lparr>mapToLower = id, trimFuncIsSpace = id\<rparr> (initialModel \<lparr>mapToLower = id, trimFuncIsSpace = id\<rparr> (\<lambda>_. Inr ''main\<newline>dev\<newline>docs'') False) [KeyMsg ''/'']) (KeyMsg ''q'')) = None
   \<and> Update \<lparr>mapToLower = id, trimFuncIsSpace = id\<rparr> (exec \<lparr>mapToLower = id, trimFuncIsSpace = id\<rparr> (initialModel \<lparr>mapToLower = id, trimFuncIsSpace = id\<rparr> (\<lambda>_. Inr ''main\<newline>dev\<newline>docs'') False) [KeyMsg ''/'']) (KeyMsg ''ctrl+c'')
       = (exec \<lparr>mapToLower = id, trimFuncIsSpace = id\<rparr> (initialModel \<lparr>mapToLower = id, trimFuncIsSpace = id\<rparr> (\<lambda>_. Inr ''main\<newline>dev\<newline>docs'') False) [KeyMsg ''/''], None)"
proof -
  have h: "filterMode (exec \<lparr>mapToLower = id, trimFuncIsSpace = id\<rparr> (initialModel \<lparr>mapToLower = id, trimFuncIsSpace = id\<rparr> (\<lambda>_. Inr ''main\<newline>dev\<newline>docs'') False) [KeyMsg ''/''])"
    by code_simp
  from filtering_never_quits [OF h, where x = "KeyMsg ''q''" and L = "\<lparr>mapToLower = id, trimFuncIsSpace = id\<rparr>"] h show ?thesis by simp
qed

text \<open>
  Claim C6. From any initial list and after any messages that leave the selector in
  filtering mode (so with any filter text typed), \<open>enter\<close> commits the filter and
  one \<open>esc\<close> in browsing then shows the initial list again, in its order, with the
  cursor and the window at 0 and no filter committed.
\<close>

theorem commit_then_clear_restores:
  assumes "allBranches m0 = branches m0" and "filterMode (exec L m0 xs)"
  shows "Update L (exec L m0 xs) (KeyMsg ''enter'')
           = ((exec L m0 xs)\<lparr>filterMode := False, filteredApplied := True\<rparr>, None)
         \<and> Update L ((exec L m0 xs)\<lparr>filterMode := False, filteredApplied := True\<rparr>) (KeyMsg ''esc'')
           = ((exec L m0 xs)\<lparr>filterMode := False, filteredApplied := False, branches := branches m0,
                 filterText := [], cursor := 0, offset := 0\<rparr>, None)"
  using assms allBranches_exec [of L m0 xs] by (simp add: Update_def)

theorem commit_then_clear_restores_witness:
  "allBranches (initialModel \<lparr>mapToLower = id, trimFuncIsSpace = id\<rparr> (\<lambda>_. Inr ''main\<newline>dev\<newline>docs'') False) = branches (initialModel \<lparr>mapToLower = id, trimFuncIsSpace = id\<rparr> (\<lambda>_. Inr ''main\<newline>dev\<newline>docs'') False)
   \<and> filterMode (exec \<lparr>mapToLower = id, trimFuncIsSpace = id\<rparr> (initialModel \<lparr>mapToLower = id, trimFuncIsSpace = id\<rparr> (\<lambda>_. Inr ''main\<newline>dev\<newline>docs'') False) [KeyMsg ''/'', KeyMsg ''D''])
   \<and> branches (exec \<lparr>mapToLower = id, trimFuncIsSpace = id\<rparr> (initialModel \<lparr>mapToLower = id, trimFuncIsSpace = id\<rparr> (\<lambda>_. Inr ''main\<newline>dev\<newline>docs'') False) [KeyMsg ''/'', KeyMsg ''D'']) = [''dev'', ''docs'']
   \<and> branches (fst (Update \<lparr>mapToLower = id, trimFuncIsSpace = id\<rparr> ((exec \<lparr>mapToLower = id, trimFuncIsSpace = id\<rparr> (initialModel \<lparr>mapToLower = id, trimFuncIsSpace = id\<rparr> (\<lambda>_. Inr ''main\<newline>dev\<newline>docs'') False) [KeyMsg ''/'', KeyMsg ''D''])
         \<lparr>filterMode := False, filteredApplied := True\<rparr>) (KeyMsg ''esc'')))
       = [''main'', ''dev'', ''docs'']"
proof -
  have h1: "allBranches (initialModel \<lparr>mapToLower = id, trimFuncIsSpace = id\<rparr> (\<lambda>_. Inr ''main\<newline>dev\<newline>docs'') False) = branches (initialModel \<lparr>mapToLower = id, trimFuncIsSpace = id\<rparr> (\<lambda>_. Inr ''main\<newline>dev\<newline>docs'') False)"
    by code_simp
  have h2: "filterMode (exec \<lparr>mapToLower = id, trimFuncIsSpace = id\<rparr> (initialModel \<lparr>mapToLower = id, trimFuncIsSpace = id\<rparr> (\<lambda>_. Inr ''main\<newline>dev\<newline>docs'') False) [KeyMsg ''/'', KeyMsg ''D''])"
    by code_simp
  have h3: "branches (exec \<lparr>mapToLower = id, trimFuncIsSpace = id\<rparr> (initialModel \<lparr>mapToLower = id, trimFuncIsSpace = id\<rparr> (\<lambda>_. Inr ''main\<newline>dev\<newline>docs'') False) [KeyMsg ''/'', KeyMsg ''D'']) = [''dev'', ''docs'']"
    by code_simp
  have h4: "branches (initialModel \<lparr>mapToLower = id, trimFuncIsSpace = id\<rparr> (\<lambda>_. Inr ''main\<newline>dev\<newline>docs'') False) = [''main'', ''dev'', ''docs'']"
    by code_simp
  from commit_then_clear_restores [OF h1 h2] h1 h2 h3 h4 show ?thesis by simp
qed

section \<open>Moving the cursor\<close>

lemma view_inv0_initialModel0: "view_inv0 (initialModel0 L env r)"
  by (simp add: view_inv0_def initialModel0_def Let_def)

lemma view_inv0_moveUp0: "view_inv0 m \<Longrightarrow> view_inv0 (moveUp0 m)"
  by (auto simp: view_inv0_def moveUp0_def Let_def)

lemma view_inv0_moveDown0: "view_inv0 m \<Longrightarrow> view_inv0 (moveDown0 m)"
  by (auto simp: view_inv0_def moveDown0_def Let_def)

lemma view_inv0_Update0: "view_inv0 m \<Longrightarrow> view_inv0 (fst (Update0 m x))"
  by (cases x) (simp_all add: Update0_def view_inv0_moveUp0 view_inv0_moveDown0)

lemma view_inv0_exec0: "view_inv0 m \<Longrightarrow> view_inv0 (exec0 m xs)"
  by (induction xs arbitrary: m) (simp_all add: exec0_def view_inv0_Update0)

lemma view_inv0_reachable: "view_inv0 (exec0 (initialModel0 L env r) xs)"
  by (rule view_inv0_exec0 [OF view_inv0_initialModel0])

lemma moveDown_clamp:
  assumes "view_inv m" and "branches m \<noteq> []"
    and "d = min (int (length (branches m)) - 1) (cursor m + 1)"
  shows "moveDown m = m\<lparr>cursor := d, offset := (if d \<ge> offset m + 10 then offset m + 1 else offset m)\<rparr>"
  using assms by (auto simp: view_inv_def moveDown_def Let_def min_def)

lemma moveUp_clamp:
  assumes "view_inv m" and "u = max 0 (cursor m - 1)"
  shows "moveUp m = m\<lparr>cursor := u, offset := (if u < offset m then u else offset m)\<rparr>"
  using assms by (auto simp: view_inv_def moveUp_def Let_def max_def)

lemma moveDown0_clamp:
  assumes "view_inv0 n" and "branches0 n \<noteq> []"
    and "d = min (int (length (branches0 n)) - 1) (cursor0 n + 1)"
  shows "moveDown0 n
           = n\<lparr>cursor0 := d, offset0 := (if d \<ge> offset0 n + 10 then offset0 n + 1 else offset0 n)\<rparr>"
  using assms by (auto simp: view_inv0_def moveDown0_def Let_def min_def)

lemma moveUp0_clamp:
  assumes "view_inv0 n" and "u = max 0 (cursor0 n - 1)"
  shows "moveUp0 n = n\<lparr>cursor0 := u, offset0 := (if u < offset0 n then u else offset0 n)\<rparr>"
  using assms by (auto simp: view_inv0_def moveUp0_def Let_def max_def)

text \<open>
  Claim C7. In a state of a session, browsing a non-empty list, the move-down keys
  set the cursor to \<open>min (len - 1) (cursor + 1)\<close> and advance the window by one when
  the cursor reaches \<open>offset + 10\<close>; the move-up keys set the cursor to
  \<open>max 0 (cursor - 1)\<close> and set the window start to the cursor when the cursor is
  above the window. The cursor stays within \<open>0 .. len - 1\<close>. This holds of the
  selector with filtering (\<open>m\<close>) and of the one without (\<open>n\<close>).
\<close>

theorem moves_clamp:
  assumes "m = exec L (initialModel L env r) xs" and "\<not> filterMode m" and "branches m \<noteq> []"
    and "n = exec0 (initialModel0 L env0 r0) ys" and "branches0 n \<noteq> []"
    and "kd = ''down'' \<or> kd = ''j''" and "ku = ''up'' \<or> ku = ''k''"
    and "d = min (int (length (branches m)) - 1) (cursor m + 1)"
    and "u = max 0 (cursor m - 1)"
    and "d0 = min (int (length (branches0 n)) - 1) (cursor0 n + 1)"
    and "u0 = max 0 (cursor0 n - 1)"
  shows "Update L m (KeyMsg kd)
           = (m\<lparr>cursor := d, offset := (if d \<ge> offset m + 10 then offset m + 1 else offset m)\<rparr>, None)
         \<and> Update L m (KeyMsg ku)
           = (m\<lparr>cursor := u, offset := (if u < offset m then u else offset m)\<rparr>, None)
         \<and> 0 \<le> d \<and> d \<le> int (length (branches m)) - 1
         \<and> 0 \<le> u \<and> u \<le> int (length (branches m)) - 1
         \<and> Update0 n (KeyMsg kd)
           = (n\<lparr>cursor0 := d0,
                 offset0 := (if d0 \<ge> offset0 n + 10 then offset0 n + 1 else offset0 n)\<rparr>, None)
         \<and> Update0 n (KeyMsg ku)
           = (n\<lparr>cursor0 := u0, offset0 := (if u0 < offset0 n then u0 else offset0 n)\<rparr>, None)
         \<and> 0 \<le> d0 \<and> d0 \<le> int (length (branches0 n)) - 1
         \<and> 0 \<le> u0 \<and> u0 \<le> int (length (branches0 n)) - 1"
proof -
  have inv: "view_inv m" using assms(1) by (simp add: view_inv_reachable)
  with assms(3) have c: "0 \<le> cursor m" "cursor m < int (length (branches m))"
    by (simp_all add: view_inv_def)
  have inv0: "view_inv0 n" using assms(4) by (simp add: view_inv0_reachable)
  with assms(5) have c0: "0 \<le> cursor0 n" "cursor0 n < int (length (branches0 n))"
    by (simp_all add: view_inv0_def)
  have down: "Update L m (KeyMsg kd) = (moveDown m, None)"
    using assms(2,6) by (elim disjE) (simp_all add: Update_def)
  have up: "Update L m (KeyMsg ku) = (moveUp m, None)"
    using assms(2,7) by (elim disjE) (simp_all add: Update_def)
  note md = moveDown_clamp [OF inv assms(3) assms(8)]
  note mu = moveUp_clamp [OF inv assms(9)]
  have down0: "Update0 n (KeyMsg kd) = (moveDown0 n, None)"
    using assms(6) by (elim disjE) (simp_all add: Update0_def)
  have up0: "Update0 n (KeyMsg ku) = (moveUp0 n, None)"
    using assms(7) by (elim disjE) (simp_all add: Update0_def)
  note d0 = moveDown0_clamp [OF inv0 assms(5) assms(10)]
  note u0 = moveUp0_clamp [OF inv0 assms(11)]
  from c assms(8,9) have b: "0 \<le> d \<and> d \<le> int (length (branches m)) - 1
         \<and> 0 \<le> u \<and> u \<le> int (length (branches m)) - 1" by auto
  from c0 assms(10,11) have b0: "0 \<le> d0 \<and> d0 \<le> int (length (branches0 n)) - 1
         \<and> 0 \<le> u0 \<and> u0 \<le> int (length (branches0 n)) - 1" by auto
  from down up md mu b down0 up0 d0 u0 b0 show ?thesis by simp
qed

theorem moves_clamp_witness:
  "\<not> filterMode (exec \<lparr>mapToLower = id, trimFuncIsSpace = id\<rparr> (initialModel \<lparr>mapToLower = id, trimFuncIsSpace = id\<rparr> (\<lambda>_. Inr ''main\<newline>dev\<newline>docs'') False) [KeyMsg ''j''])
   \<and> branches (exec \<lparr>mapToLower = id, trimFuncIsSpace = id\<rparr> (initialModel \<lparr>mapToLower = id, trimFuncIsSpace = id\<rparr> (\<lambda>_. Inr ''main\<newline>dev\<newline>docs'') False) [KeyMsg ''j'']) \<noteq> []
   \<and> branches0 (exec0 (initialModel0 \<lparr>mapToLower = id, trimFuncIsSpace = id\<rparr> (\<lambda>_. Inr ''main\<newline>dev\<newline>docs'') False) [KeyMsg ''j'']) \<noteq> []
   \<and> fst (Update \<lparr>mapToLower = id, trimFuncIsSpace = id\<rparr> (exec \<lparr>mapToLower = id, trimFuncIsSpace = id\<rparr> (initialModel \<lparr>mapToLower = id, trimFuncIsSpace = id\<rparr> (\<lambda>_. Inr ''main\<newline>dev\<newline>docs'') False) [KeyMsg ''j'']) (KeyMsg ''j''))
       = (exec \<lparr>mapToLower = id, trimFuncIsSpace = id\<rparr> (initialModel \<lparr>mapToLower = id, trimFuncIsSpace = id\<rparr> (\<lambda>_. Inr ''main\<newline>dev\<newline>docs'') False) [KeyMsg ''j''])\<lparr>cursor := 2, offset := 0\<rparr>
   \<and> fst (Update0 (exec0 (initialModel0 \<lparr>mapToLower = id, trimFuncIsSpace = id\<rparr> (\<lambda>_. Inr ''main\<newline>dev\<newline>docs'') False) [KeyMsg ''j'']) (KeyMsg ''k''))
       = (exec0 (initialModel0 \<lparr>mapToLower = id, trimFuncIsSpace = id\<rparr> (\<lambda>_. Inr ''main\<newline>dev\<newline>docs'') False) [KeyMsg ''j''])\<lparr>cursor0 := 0, offset0 := 0\<rparr>"
proof -
  have h2: "\<not> filterMode (exec \<lparr>mapToLower = id, trimFuncIsSpace = id\<rparr> (initialModel \<lparr>mapToLower = id, trimFuncIsSpace = id\<rparr> (\<lambda>_. Inr ''main\<newline>dev\<newline>docs'') False) [KeyMsg ''j''])"
    by code_simp
  have h3: "branches (exec \<lparr>mapToLower = id, trimFuncIsSpace = id\<rparr> (initialModel \<lparr>mapToLower = id, trimFuncIsSpace = id\<rparr> (\<lambda>_. Inr ''main\<newline>dev\<newline>docs'') False) [KeyMsg ''j'']) \<noteq> []"
    by code_simp
  have h5: "branches0 (exec0 (initialModel0 \<lparr>mapToLower = id, trimFuncIsSpace = id\<rparr> (\<lambda>_. Inr ''main\<newline>dev\<newline>docs'') False) [KeyMsg ''j'']) \<noteq> []"
    by code_simp
  have h6: "''j'' = ''down'' \<or> ''j'' = ''j''" by simp
  have h7: "''k'' = ''up'' \<or> ''k'' = ''k''" by simp
  have v: "cursor (exec \<lparr>mapToLower = id, trimFuncIsSpace = id\<rparr> (initialModel \<lparr>mapToLower = id, trimFuncIsSpace = id\<rparr> (\<lambda>_. Inr ''main\<newline>dev\<newline>docs'') False) [KeyMsg ''j'']) = 1"
    "offset (exec \<lparr>mapToLower = id, trimFuncIsSpace = id\<rparr> (initialModel \<lparr>mapToLower = id, trimFuncIsSpace = id\<rparr> (\<lambda>_. Inr ''main\<newline>dev\<newline>docs'') False) [KeyMsg ''j'']) = 0"
    "length (branches (exec \<lparr>mapToLower = id, trimFuncIsSpace = id\<rparr> (initialModel \<lparr>mapToLower = id, trimFuncIsSpace = id\<rparr> (\<lambda>_. Inr ''main\<newline>dev\<newline>docs'') False) [KeyMsg ''j''])) = 3"
    "cursor0 (exec0 (initialModel0 \<lparr>mapToLower = id, trimFuncIsSpace = id\<rparr> (\<lambda>_. Inr ''main\<newline>dev\<newline>docs'') False) [KeyMsg ''j'']) = 1"
    "offset0 (exec0 (initialModel0 \<lparr>mapToLower = id, trimFuncIsSpace = id\<rparr> (\<lambda>_. Inr ''main\<newline>dev\<newline>docs'') False) [KeyMsg ''j'']) = 0"
    "length (branches0 (exec0 (initialModel0 \<lparr>mapToLower = id, trimFuncIsSpace = id\<rparr> (\<lambda>_. Inr ''main\<newline>dev\<newline>docs'') False) [KeyMsg ''j''])) = 3"
    by code_simp+
  from moves_clamp [OF refl h2 h3 refl h5 h6 h7 refl refl refl refl] h2 h3 h5 v
  show ?thesis by simp
qed

section \<open>How a session ends\<close>

lemma cancel_keeps_model:
  assumes "Update L m (KeyMsg k) = (fm, Some Quit)" and "k = ''q'' \<or> k = ''ctrl+c'' \<or> k = ''esc''"
  shows "fm = m \<and> \<not> filterMode m \<and> (k \<noteq> ''esc'' \<or> \<not> filteredApplied m)"
  using assms by (auto simp: Update_def split: if_splits)

text \<open>
  Claim C1, as the program has it. A session whose branch list was fetched without
  error and that ends on \<open>q\<close>, \<open>ctrl+c\<close> or \<open>esc\<close> exits with code 0 and runs no
  checkout command. The key that ends it was pressed in browsing mode, and \<open>esc\<close>
  with no filter committed.
\<close>

theorem cancel_exits_zero:
  assumes fetch: "getRecentBranches L env r = Inr bl"
    and before: "run L (initialModel L env r) pre = None"
    and ends: "run L (initialModel L env r) (pre @ [KeyMsg k]) = Some fm"
    and key: "k = ''q'' \<or> k = ''ctrl+c'' \<or> k = ''esc''"
  shows "main L env git r None (pre @ [KeyMsg k]) = Some (Exit 0 [])
         \<and> \<not> filterMode (exec L (initialModel L env r) pre)
         \<and> \<not> (k = ''esc'' \<and> filteredApplied (exec L (initialModel L env r) pre))"
proof -
  let ?m = "exec L (initialModel L env r) pre"
  from before ends have "run L ?m [KeyMsg k] = Some fm" by (simp add: run_None_append)
  then have u: "Update L ?m (KeyMsg k) = (fm, Some Quit)"
    by (cases "Update L ?m (KeyMsg k)") (auto split: option.splits cmd.splits)
  from cancel_keeps_model [OF u key]
  have fm: "fm = ?m" and mode: "\<not> filterMode ?m" and fa: "k \<noteq> ''esc'' \<or> \<not> filteredApplied ?m"
    by auto
  have "selected ?m = selected (initialModel L env r)" using before by (rule run_None_selected)
  then have s: "\<not> selected fm" using fm by (simp add: initialModel_def Let_def)
  have "err fm = err (initialModel L env r)" using fm by (simp add: err_exec)
  then have e: "err fm = None" using fetch by (simp add: initialModel_def Let_def)
  from s e have "finish git fm = Exit 0 []" by (simp add: finish_def)
  with ends mode fa show ?thesis by (auto simp: main_def)
qed

theorem cancel_exits_zero_witness:
  "getRecentBranches \<lparr>mapToLower = id, trimFuncIsSpace = id\<rparr> (\<lambda>_. Inr ''main\<newline>dev\<newline>docs'') False = Inr [''main'', ''dev'', ''docs'']
   \<and> run \<lparr>mapToLower = id, trimFuncIsSpace = id\<rparr> (initialModel \<lparr>mapToLower = id, trimFuncIsSpace = id\<rparr> (\<lambda>_. Inr ''main\<newline>dev\<newline>docs'') False) [KeyMsg ''j''] = None
   \<and> run \<lparr>mapToLower = id, trimFuncIsSpace = id\<rparr> (initialModel \<lparr>mapToLower = id, trimFuncIsSpace = id\<rparr> (\<lambda>_. Inr ''main\<newline>dev\<newline>docs'') False) ([KeyMsg ''j''] @ [KeyMsg ''q''])
       = Some (exec \<lparr>mapToLower = id, trimFuncIsSpace = id\<rparr> (initialModel \<lparr>mapToLower = id, trimFuncIsSpace = id\<rparr> (\<lambda>_. Inr ''main\<newline>dev\<newline>docs'') False) [KeyMsg ''j''])
   \<and> main \<lparr>mapToLower = id, trimFuncIsSpace = id\<rparr> (\<lambda>_. Inr ''main\<newline>dev\<newline>docs'') (\<lambda>_. None) False None ([KeyMsg ''j''] @ [KeyMsg ''q'']) = Some (Exit 0 [])"
proof -
  have h1: "getRecentBranches \<lparr>mapToLower = id, trimFuncIsSpace = id\<rparr> (\<lambda>_. Inr ''main\<newline>dev\<newline>docs'') False = Inr [''main'', ''dev'', ''docs'']"
    by code_simp
  have h2: "run \<lparr>mapToLower = id, trimFuncIsSpace = id\<rparr> (initialModel \<lparr>mapToLower = id, trimFuncIsSpace = id\<rparr> (\<lambda>_. Inr ''main\<newline>dev\<newline>docs'') False) [KeyMsg ''j''] = None"
    by code_simp
  have h3: "run \<lparr>mapToLower = id, trimFuncIsSpace = id\<rparr> (initialModel \<lparr>mapToLower = id, trimFuncIsSpace = id\<rparr> (\<lambda>_. Inr ''main\<newline>dev\<newline>docs'') False) ([KeyMsg ''j''] @ [KeyMsg ''q''])
       = Some (exec \<lparr>mapToLower = id, trimFuncIsSpace = id\<rparr> (initialModel \<lparr>mapToLower = id, trimFuncIsSpace = id\<rparr> (\<lambda>_. Inr ''main\<newline>dev\<newline>docs'') False) [KeyMsg ''j''])"
    by code_simp
  have h4: "''q'' = ''q'' \<or> ''q'' = ''ctrl+c'' \<or> ''q'' = ''esc''" by simp
  from cancel_exits_zero [OF h1 h2 h3 h4, of "\<lambda>_. None"] h1 h2 h3 show ?thesis by simp
qed

text \<open>
  The claim as written fails where the fetch failed: the selector still runs, shows
  the error and waits for a key, and after \<open>q\<close> the process exits with code 1.
\<close>

theorem cancel_after_fetch_error_exits_one:
  "run \<lparr>mapToLower = id, trimFuncIsSpace = id\<rparr> (initialModel \<lparr>mapToLower = id, trimFuncIsSpace = id\<rparr> (\<lambda>_. Inl (Error ''exit status 128'')) False) [KeyMsg ''q'']
     = Some (initialModel \<lparr>mapToLower = id, trimFuncIsSpace = id\<rparr> (\<lambda>_. Inl (Error ''exit status 128'')) False)
   \<and> main \<lparr>mapToLower = id, trimFuncIsSpace = id\<rparr> (\<lambda>_. Inl (Error ''exit status 128'')) (\<lambda>_. None) False None [KeyMsg ''q'']
       = Some (Exit 1 [])"
  by code_simp

text \<open>
  The selector without filtering runs the checkout whenever the final list is
  non-empty, whichever key ended the loop: after \<open>q\<close> it checks out the entry under
  the cursor.
\<close>

lemma quit_checks_out_without_filtering:
  "main0 \<lparr>mapToLower = id, trimFuncIsSpace = id\<rparr> (\<lambda>_. Inr ''main\<newline>dev\<newline>docs'') (\<lambda>_. None) False None [KeyMsg ''q'']
     = Some (Exit 0 [[''git'', ''checkout'', ''main'']])"
  by code_simp

text \<open>
  Claim C2, as the program has it. In browsing mode \<open>enter\<close> always sets the
  \<open>selected\<close> flag and quits. What \<open>main\<close> then does: after a failed fetch it
  exits with code 1; otherwise, with a non-empty list it checks out the entry under
  the cursor, and with an empty list it runs no checkout and exits with code 0.
\<close>

theorem confirm_quits:
  assumes "m = exec L (initialModel L env r) xs" and "\<not> filterMode m"
  shows "Update L m (KeyMsg ''enter'') = (m\<lparr>selected := True\<rparr>, Some Quit)
         \<and> finish git (m\<lparr>selected := True\<rparr>)
           = (if err m \<noteq> None then Exit 1 []
              else if branches m = [] then Exit 0 []
              else Exit (if git (checkoutArgs (branches m ! nat (cursor m)) (remote m)) \<noteq> None
                         then 1 else 0)
                     [checkoutArgs (branches m ! nat (cursor m)) (remote m)])"
proof -
  have "view_inv m" using assms(1) by (simp add: view_inv_reachable)
  then have "branches m \<noteq> [] \<Longrightarrow> index (branches m) (cursor m) = Some (branches m ! nat (cursor m))"
    by (simp add: view_inv_def index_def)
  then have "finish git (m\<lparr>selected := True\<rparr>)
           = (if err m \<noteq> None then Exit 1 []
              else if branches m = [] then Exit 0 []
              else Exit (if git (checkoutArgs (branches m ! nat (cursor m)) (remote m)) \<noteq> None
                         then 1 else 0)
                     [checkoutArgs (branches m ! nat (cursor m)) (remote m)])"
    by (simp add: finish_def checkoutBranch_def)
  moreover have "Update L m (KeyMsg ''enter'') = (m\<lparr>selected := True\<rparr>, Some Quit)"
    using assms(2) by (simp add: Update_def)
  ultimately show ?thesis by simp
qed

theorem confirm_quits_witness:
  "\<not> filterMode (exec \<lparr>mapToLower = id, trimFuncIsSpace = id\<rparr> (initialModel \<lparr>mapToLower = id, trimFuncIsSpace = id\<rparr> (\<lambda>_. Inr ''main\<newline>dev\<newline>docs'') False) [KeyMsg ''j''])
   \<and> Update \<lparr>mapToLower = id, trimFuncIsSpace = id\<rparr> (exec \<lparr>mapToLower = id, trimFuncIsSpace = id\<rparr> (initialModel \<lparr>mapToLower = id, trimFuncIsSpace = id\<rparr> (\<lambda>_. Inr ''main\<newline>dev\<newline>docs'') False) [KeyMsg ''j'']) (KeyMsg ''enter'')
       = ((exec \<lparr>mapToLower = id, trimFuncIsSpace = id\<rparr> (initialModel \<lparr>mapToLower = id, trimFuncIsSpace = id\<rparr> (\<lambda>_. Inr ''main\<newline>dev\<newline>docs'') False) [KeyMsg ''j''])\<lparr>selected := True\<rparr>, Some Quit)
   \<and> finish (\<lambda>_. None) ((exec \<lparr>mapToLower = id, trimFuncIsSpace = id\<rparr> (initialModel \<lparr>mapToLower = id, trimFuncIsSpace = id\<rparr> (\<lambda>_. Inr ''main\<newline>dev\<newline>docs'') False) [KeyMsg ''j''])\<lparr>selected := True\<rparr>)
       = Exit 0 [[''git'', ''checkout'', ''dev'']]"
proof -
  have h: "\<not> filterMode (exec \<lparr>mapToLower = id, trimFuncIsSpace = id\<rparr> (initialModel \<lparr>mapToLower = id, trimFuncIsSpace = id\<rparr> (\<lambda>_. Inr ''main\<newline>dev\<newline>docs'') False) [KeyMsg ''j''])"
    by code_simp
  have v: "err (exec \<lparr>mapToLower = id, trimFuncIsSpace = id\<rparr> (initialModel \<lparr>mapToLower = id, trimFuncIsSpace = id\<rparr> (\<lambda>_. Inr ''main\<newline>dev\<newline>docs'') False) [KeyMsg ''j'']) = None"
    "branches (exec \<lparr>mapToLower = id, trimFuncIsSpace = id\<rparr> (initialModel \<lparr>mapToLower = id, trimFuncIsSpace = id\<rparr> (\<lambda>_. Inr ''main\<newline>dev\<newline>docs'') False) [KeyMsg ''j'']) = [''main'', ''dev'', ''docs'']"
    "cursor (exec \<lparr>mapToLower = id, trimFuncIsSpace = id\<rparr> (initialModel \<lparr>mapToLower = id, trimFuncIsSpace = id\<rparr> (\<lambda>_. Inr ''main\<newline>dev\<newline>docs'') False) [KeyMsg ''j'']) = 1"
    "remote (exec \<lparr>mapToLower = id, trimFuncIsSpace = id\<rparr> (initialModel \<lparr>mapToLower = id, trimFuncIsSpace = id\<rparr> (\<lambda>_. Inr ''main\<newline>dev\<newline>docs'') False) [KeyMsg ''j'']) = False"
    by code_simp+
  from confirm_quits [OF refl h, of "\<lambda>_. None"] h v show ?thesis
    by (simp add: checkoutArgs_def)
qed

text \<open>
  The claim as written fails on the empty list: \<open>enter\<close> is not a no-op there, the
  event loop ends.
\<close>

theorem confirm_on_empty_list_quits:
  "branches (initialModel \<lparr>mapToLower = id, trimFuncIsSpace = id\<rparr> (\<lambda>_. Inr []) False) = []
   \<and> \<not> filterMode (initialModel \<lparr>mapToLower = id, trimFuncIsSpace = id\<rparr> (\<lambda>_. Inr []) False)
   \<and> Update \<lparr>mapToLower = id, trimFuncIsSpace = id\<rparr> (initialModel \<lparr>mapToLower = id, trimFuncIsSpace = id\<rparr> (\<lambda>_. Inr []) False) (KeyMsg ''enter'')
       = ((initialModel \<lparr>mapToLower = id, trimFuncIsSpace = id\<rparr> (\<lambda>_. Inr []) False)\<lparr>selected := True\<rparr>, Some Quit)
   \<and> main \<lparr>mapToLower = id, trimFuncIsSpace = id\<rparr> (\<lambda>_. Inr []) (\<lambda>_. None) False None [KeyMsg ''enter''] = Some (Exit 0 [])"
  by code_simp

section \<open>The checkout command\<close>

lemma takeWhile_cut: "sep \<notin> set a \<Longrightarrow> takeWhile (\<lambda>c. c \<noteq> sep) (a @ sep # b) = a"
  by (induction a) auto

lemma dropWhile_cut: "sep \<notin> set a \<Longrightarrow> dropWhile (\<lambda>c. c \<noteq> sep) (a @ sep # b) = sep # b"
  by (induction a) auto

lemma SplitN2_cut: "sep \<notin> set a \<Longrightarrow> SplitN2 (a @ sep # b) sep = [a, b]"
  by (simp add: SplitN2_def takeWhile_cut dropWhile_cut)

text \<open>
  Claim C5. Under remote scope a selected branch \<open>remote/localName\<close>, cut at its
  first slash, is checked out as \<open>localName\<close>; a name with no slash is checked out
  with \<open>--track\<close> under its full name; and \<open>origin/feature/x\<close> gives \<open>feature/x\<close>.
\<close>

theorem remote_checkout_name:
  assumes "CHR ''/'' \<notin> set rem" and "CHR ''/'' \<notin> set whole"
  shows "checkoutArgs (rem @ ''/'' @ localName) True = [''git'', ''checkout'', localName]
         \<and> checkoutBranch git (rem @ ''/'' @ localName) True = git [''git'', ''checkout'', localName]
         \<and> checkoutArgs whole True = [''git'', ''checkout'', ''--track'', whole]
         \<and> checkoutBranch git whole True = git [''git'', ''checkout'', ''--track'', whole]
         \<and> checkoutArgs ''origin/feature/x'' True = [''git'', ''checkout'', ''feature/x'']"
proof -
  have a: "checkoutArgs (rem @ ''/'' @ localName) True = [''git'', ''checkout'', localName]"
    using SplitN2_cut [OF assms(1), of localName] by (simp add: checkoutArgs_def)
  have b: "checkoutArgs whole True = [''git'', ''checkout'', ''--track'', whole]"
    using assms(2) by (simp add: checkoutArgs_def SplitN2_def)
  have c: "checkoutArgs ''origin/feature/x'' True = [''git'', ''checkout'', ''feature/x'']"
    by (simp add: checkoutArgs_def SplitN2_def)
  from a b c show ?thesis by (simp add: checkoutBranch_def)
qed

theorem remote_checkout_name_witness:
  "CHR ''/'' \<notin> set ''upstream'' \<and> CHR ''/'' \<notin> set ''topic''
   \<and> checkoutArgs (''upstream'' @ ''/'' @ ''fix/typo'') True = [''git'', ''checkout'', ''fix/typo'']
   \<and> checkoutArgs ''topic'' True = [''git'', ''checkout'', ''--track'', ''topic'']"
proof -
  have h1: "CHR ''/'' \<notin> set ''upstream''" by simp
  have h2: "CHR ''/'' \<notin> set ''topic''" by simp
  from remote_checkout_name [OF h1 h2, of "''fix/typo''" "\<lambda>_. None"] h1 h2 show ?thesis by simp
qed

section \<open>Recomputing the filter\<close>
















section \<open>Parsing the branch list\<close>

lemma HasSuffix_iff: "HasSuffix s suf \<longleftrightarrow> (\<exists>p. s = p @ suf)"
proof
  assume "HasSuffix s suf"
  then have "s = take (length s - length suf) s @ suf"
    by (metis HasSuffix_def append_take_drop_id)
  then show "\<exists>p. s = p @ suf" ..
next
  assume "\<exists>p. s = p @ suf"
  then show "HasSuffix s suf" by (auto simp: HasSuffix_def)
qed

lemma Split_not_Nil: "Split s sep \<noteq> []"
  by (induction s) (simp_all add: Let_def)

lemma Join_Cons: "ls \<noteq> [] \<Longrightarrow> Join (l # ls) sep = l @ sep # Join ls sep"
  by (cases ls) simp_all

lemma Join_hd_Cons: "ls \<noteq> [] \<Longrightarrow> Join ((c # hd ls) # tl ls) sep = c # Join ls sep"
proof (cases ls)
  case Nil
  assume "ls \<noteq> []"
  with Nil show ?thesis by simp
next
  case (Cons a as)
  show ?thesis using Cons by (cases as) simp_all
qed

lemma Join_Split: "Join (Split s sep) sep = s"
proof (induction s)
  case Nil
  show ?case by simp
next
  case (Cons c cs)
  show ?case
  proof (cases "c = sep")
    case True
    then show ?thesis using Cons.IH by (simp add: Join_Cons Split_not_Nil)
  next
    case False
    then show ?thesis using Cons.IH by (simp add: Let_def Join_hd_Cons Split_not_Nil)
  qed
qed

lemma Split_no_sep: "list_all (\<lambda>l. sep \<notin> set l) (Split s sep)"
proof (induction s)
  case Nil
  show ?case by simp
next
  case (Cons c cs)
  then show ?case
    by (cases "Split cs sep") (auto simp: Let_def Split_not_Nil)
qed

lemma Split_line: "sep \<notin> set l \<Longrightarrow> Split l sep = [l]"
  by (induction l) (auto simp: Let_def)

lemma Split_line_sep: "sep \<notin> set l \<Longrightarrow> Split (l @ sep # s) sep = l # Split s sep"
  by (induction l) (auto simp: Let_def)

text \<open>The lines are the only such list: splitting undoes joining.\<close>

lemma Split_Join: "ls \<noteq> [] \<Longrightarrow> list_all (\<lambda>l. sep \<notin> set l) ls \<Longrightarrow> Split (Join ls sep) sep = ls"
proof (induction ls sep rule: Join.induct)
  case (1 sep)
  then show ?case by simp
next
  case (2 l sep)
  then show ?case by (simp add: Split_line)
next
  case (3 l l' ls sep)
  then show ?case by (simp add: Split_line_sep)
qed

lemma dropWhile_trim:
  "dropWhile asciiSpace out
     = trimASCII out @ rev (takeWhile asciiSpace (rev (dropWhile asciiSpace out)))"
proof -
  let ?d = "dropWhile asciiSpace out"
  have "rev (takeWhile asciiSpace (rev ?d) @ dropWhile asciiSpace (rev ?d)) = rev (rev ?d)"
    by (simp only: takeWhile_dropWhile_id)
  then have "rev (dropWhile asciiSpace (rev ?d)) @ rev (takeWhile asciiSpace (rev ?d)) = ?d"
    by (simp only: rev_append rev_rev_ident)
  then show ?thesis by (simp only: trimASCII_def)
qed

lemma trimASCII_split:
  "out = takeWhile asciiSpace out @ trimASCII out
           @ rev (takeWhile asciiSpace (rev (dropWhile asciiSpace out)))"
proof -
  let ?d = "dropWhile asciiSpace out"
  have "?d = trimASCII out @ rev (takeWhile asciiSpace (rev ?d))" by (rule dropWhile_trim)
  moreover have "out = takeWhile asciiSpace out @ ?d" by simp
  ultimately show ?thesis by metis
qed

lemma trimASCII_ends:
  assumes "trimASCII out \<noteq> []"
  shows "\<not> asciiSpace (hd (trimASCII out))" and "\<not> asciiSpace (last (trimASCII out))"
proof -
  let ?d = "dropWhile asciiSpace out"
  let ?x = "dropWhile asciiSpace (rev ?d)"
  from assms have x: "?x \<noteq> []" by (simp add: trimASCII_def)
  then have "\<not> asciiSpace (hd ?x)" by (rule hd_dropWhile)
  moreover have "last (trimASCII out) = hd ?x" using x by (simp add: trimASCII_def last_rev)
  ultimately show "\<not> asciiSpace (last (trimASCII out))" by simp
  have d: "?d = trimASCII out @ rev (takeWhile asciiSpace (rev ?d))" by (rule dropWhile_trim)
  have "?d \<noteq> []"
  proof
    assume e: "?d = []"
    have "trimASCII out = rev (dropWhile asciiSpace (rev ?d))" by (simp only: trimASCII_def)
    also have "\<dots> = []" unfolding e by simp
    finally show False using assms by simp
  qed
  then have "\<not> asciiSpace (hd ?d)" by (rule hd_dropWhile)
  moreover from d assms have "hd ?d = hd (trimASCII out)" by (metis hd_append2)
  ultimately show "\<not> asciiSpace (hd (trimASCII out))" by simp
qed

lemma list_all_takeWhile: "list_all P (takeWhile P xs)"
  by (induction xs) simp_all

text \<open>
  Claim C8, as the program has it. The parsed list is the non-empty lines of the
  trimmed output, in order, where the lines of a text are the newline-free pieces
  that joined by newlines give the text; the variants with a scope flag also leave
  out every line ending in \<open>/HEAD\<close>, the first variant (local branches only) does
  not. The trimmed output is what \<open>strings.TrimSpace\<close> returns: for ASCII output,
  the text between its leading and trailing white space.
\<close>

theorem parsed_branch_list:
  "parseBranches L out
     = filter (\<lambda>b. b \<noteq> [] \<and> \<not> (\<exists>p. b = p @ ''/HEAD'')) (Split (TrimSpace L out) CHR 0x0A)
   \<and> parseBranches1 L out = filter (\<lambda>b. b \<noteq> []) (Split (TrimSpace L out) CHR 0x0A)
   \<and> getRecentBranches L (\<lambda>_. Inr out) r = Inr (parseBranches L out)
   \<and> getRecentBranches1 L (\<lambda>_. Inr out) = Inr (parseBranches1 L out)
   \<and> Join (Split (TrimSpace L out) CHR 0x0A) CHR 0x0A = TrimSpace L out
   \<and> list_all (\<lambda>l. CHR 0x0A \<notin> set l) (Split (TrimSpace L out) CHR 0x0A)
   \<and> (ls \<noteq> [] \<and> list_all (\<lambda>l. CHR 0x0A \<notin> set l) ls \<longrightarrow> Split (Join ls CHR 0x0A) CHR 0x0A = ls)
   \<and> (isASCII out \<longrightarrow>
        (\<exists>pre post. out = pre @ TrimSpace L out @ post
           \<and> list_all asciiSpace pre \<and> list_all asciiSpace post)
        \<and> \<not> (TrimSpace L out \<noteq> []
              \<and> (asciiSpace (hd (TrimSpace L out)) \<or> asciiSpace (last (TrimSpace L out)))))
   \<and> (\<not> isASCII out \<longrightarrow> TrimSpace L out = trimFuncIsSpace L out)"
proof -
  have a: "parseBranches L out
     = filter (\<lambda>b. b \<noteq> [] \<and> \<not> (\<exists>p. b = p @ ''/HEAD'')) (Split (TrimSpace L out) CHR 0x0A)"
    by (simp add: parseBranches_def appendIf_filter HasSuffix_iff)
  have b: "parseBranches1 L out = filter (\<lambda>b. b \<noteq> []) (Split (TrimSpace L out) CHR 0x0A)"
    by (simp add: parseBranches1_def appendIf_filter)
  have c: "getRecentBranches L (\<lambda>_. Inr out) r = Inr (parseBranches L out)"
    by (simp add: getRecentBranches_def)
  have d: "getRecentBranches1 L (\<lambda>_. Inr out) = Inr (parseBranches1 L out)"
    by (simp add: getRecentBranches1_def)
  have e: "isASCII out \<longrightarrow>
        (\<exists>pre post. out = pre @ TrimSpace L out @ post
           \<and> list_all asciiSpace pre \<and> list_all asciiSpace post)
        \<and> \<not> (TrimSpace L out \<noteq> []
              \<and> (asciiSpace (hd (TrimSpace L out)) \<or> asciiSpace (last (TrimSpace L out))))"
  proof
    assume "isASCII out"
    then have t: "TrimSpace L out = trimASCII out" by (simp add: TrimSpace_def)
    have "list_all asciiSpace (takeWhile asciiSpace out)"
      "list_all asciiSpace (rev (takeWhile asciiSpace (rev (dropWhile asciiSpace out))))"
      by (simp_all add: list_all_takeWhile)
    with trimASCII_split [of out]
    have "\<exists>pre post. out = pre @ trimASCII out @ post
            \<and> list_all asciiSpace pre \<and> list_all asciiSpace post"
      by blast
    moreover have "\<not> (trimASCII out \<noteq> []
              \<and> (asciiSpace (hd (trimASCII out)) \<or> asciiSpace (last (trimASCII out))))"
      using trimASCII_ends [of out] by blast
    ultimately show "(\<exists>pre post. out = pre @ TrimSpace L out @ post
           \<and> list_all asciiSpace pre \<and> list_all asciiSpace post)
        \<and> \<not> (TrimSpace L out \<noteq> []
              \<and> (asciiSpace (hd (TrimSpace L out)) \<or> asciiSpace (last (TrimSpace L out))))"
      unfolding t by (rule conjI)
  qed
  have f: "\<not> isASCII out \<longrightarrow> TrimSpace L out = trimFuncIsSpace L out"
    by (simp add: TrimSpace_def)
  have g: "ls \<noteq> [] \<and> list_all (\<lambda>l. CHR 0x0A \<notin> set l) ls \<longrightarrow> Split (Join ls CHR 0x0A) CHR 0x0A = ls"
    using Split_Join [of ls "CHR 0x0A"] by blast
  have h: "Join (Split (TrimSpace L out) CHR 0x0A) CHR 0x0A = TrimSpace L out"
    "list_all (\<lambda>l. CHR 0x0A \<notin> set l) (Split (TrimSpace L out) CHR 0x0A)"
    by (simp_all add: Join_Split Split_no_sep)
  from a b c d e f g h show ?thesis by blast
qed

theorem parsed_branch_list_witness:
  "isASCII ''  main\<newline>origin/HEAD\<newline>\<newline>origin/feature/x\<newline>''
   \<and> parseBranches \<lparr>mapToLower = id, trimFuncIsSpace = id\<rparr> ''  main\<newline>origin/HEAD\<newline>\<newline>origin/feature/x\<newline>'' = [''main'', ''origin/feature/x'']
   \<and> TrimSpace \<lparr>mapToLower = id, trimFuncIsSpace = id\<rparr> ''  main\<newline>origin/HEAD\<newline>\<newline>origin/feature/x\<newline>'' = ''main\<newline>origin/HEAD\<newline>\<newline>origin/feature/x''
   \<and> filter (\<lambda>b. b \<noteq> [] \<and> \<not> (\<exists>p. b = p @ ''/HEAD''))
         (Split (TrimSpace \<lparr>mapToLower = id, trimFuncIsSpace = id\<rparr> ''  main\<newline>origin/HEAD\<newline>\<newline>origin/feature/x\<newline>'') CHR 0x0A)
     = [''main'', ''origin/feature/x'']"
proof -
  have h: "isASCII ''  main\<newline>origin/HEAD\<newline>\<newline>origin/feature/x\<newline>''" by code_simp
  have p: "parseBranches \<lparr>mapToLower = id, trimFuncIsSpace = id\<rparr> ''  main\<newline>origin/HEAD\<newline>\<newline>origin/feature/x\<newline>'' = [''main'', ''origin/feature/x'']" by code_simp
  have t: "TrimSpace \<lparr>mapToLower = id, trimFuncIsSpace = id\<rparr> ''  main\<newline>origin/HEAD\<newline>\<newline>origin/feature/x\<newline>'' = ''main\<newline>origin/HEAD\<newline>\<newline>origin/feature/x''" by code_simp
  from parsed_branch_list [of "\<lparr>mapToLower = id, trimFuncIsSpace = id\<rparr>" "''  main\<newline>origin/HEAD\<newline>\<newline>origin/feature/x\<newline>''"] h p t show ?thesis by simp
qed

text \<open>
  The claim as written fails on the first variant: a line ending in \<open>/HEAD\<close> stays
  in its list.
\<close>

theorem local_variant_keeps_HEAD_entries:
  "parseBranches1 \<lparr>mapToLower = id, trimFuncIsSpace = id\<rparr> ''main\<newline>topic/HEAD\<newline>'' = [''main'', ''topic/HEAD'']
   \<and> getRecentBranches1 \<lparr>mapToLower = id, trimFuncIsSpace = id\<rparr> (\<lambda>_. Inr ''main\<newline>topic/HEAD\<newline>'')
       = Inr [''main'', ''topic/HEAD'']
   \<and> HasSuffix ''topic/HEAD'' ''/HEAD''"
  by code_simp

end
